theory Spec2Isabelle
  imports Complex_Main
begin

section \<open>MobileNetV2 with quantization-aware convolutions (models/mobilenetv2.py)\<close>

text \<open>
  Python integers are \<open>int\<close>; a Python float is the real number it stands for, and
  every floating-point operation rounds its exact result to a double (\<open>fl64\<close> below);
  exceptions are values of the type \<open>error\<close> and a call that may raise returns
  \<open>error + 'a\<close>.
\<close>

datatype error = AssertionError | IndexError | TypeError | RuntimeError

subsection \<open>Double-precision arithmetic\<close>

text \<open>Rounding to the nearest integer, a tie to the even neighbour.\<close>

definition round_half_even :: "real \<Rightarrow> int" where
  "round_half_even x =
     (let f = \<lfloor>x\<rfloor>; r = x - real_of_int f
      in if r < 1 / 2 then f else if 1 / 2 < r then f + 1 else if even f then f else f + 1)"

text \<open>
  \<open>fl64 x\<close> is the double nearest to \<open>x\<close> (IEEE 754 binary64, round to nearest, ties to
  even): 53 significant bits at the exponent of \<open>x\<close>, and multiples of \<open>2^-1074\<close> below
  \<open>2^-1022\<close> (subnormal numbers). It is the result of converting a Python int to a float and,
  applied to the exact result, of every float operation. The exponent is not bounded above:
  results beyond the largest double (\<open>inf\<close>, or \<open>OverflowError\<close> for an int), as well as
  \<open>nan\<close>, are outside the model; none arises from arguments up to the largest double.
\<close>

definition fl64 :: "real \<Rightarrow> real" where
  "fl64 x =
     (if x = 0 then 0
      else
        let e = max \<lfloor>log 2 \<bar>x\<bar>\<rfloor> (- 1022);
            ulp = 2 powr real_of_int (e - 52)
        in real_of_int (round_half_even (x / ulp)) * ulp)"


subsection \<open>Channel rounder\<close>

text \<open>Python's \<open>int(x)\<close> on a float truncates towards zero.\<close>

definition py_int :: "real \<Rightarrow> int" where
  "py_int x = (if 0 \<le> x then \<lfloor>x\<rfloor> else \<lceil>x\<rceil>)"

text \<open>
  \<open>_make_divisible(v, divisor, min_value=None)\<close>. The argument \<open>v\<close> is a Python int or
  float, given by its value; \<open>divisor\<close> and \<open>min_value\<close> are ints. \<open>divisor / 2\<close> is true
  division, with a float result; \<open>v + divisor / 2\<close> and \<open>0.9 * v\<close> are float operations
  on \<open>v\<close> converted to a float (\<open>fl64 v\<close>, which is \<open>v\<close> itself when \<open>v\<close> is a float or
  an int below \<open>2^53\<close>), the literal \<open>0.9\<close> being the double \<open>fl64 (9 / 10)\<close>; the
  operator \<open>//\<close> is floor division, which is \<open>div\<close> on \<open>int\<close>; an int is compared with a
  float by value.
\<close>

definition make_divisible :: "real \<Rightarrow> int \<Rightarrow> int option \<Rightarrow> int" where
  "make_divisible v divisor min_value =
     (let min_value = (case min_value of None \<Rightarrow> divisor | Some m \<Rightarrow> m);
          new_v = max min_value
                    (py_int (fl64 (fl64 v + fl64 (real_of_int divisor / 2))) div divisor * divisor);
          new_v = (if real_of_int new_v < fl64 (fl64 (9 / 10) * fl64 v)
                   then new_v + divisor else new_v)
      in new_v)"

subsection \<open>Modules\<close>

text \<open>
  A module is represented by the constructor call that creates it: its class and the
  arguments of the call. \<open>nn.Conv2d\<close>, \<open>nn.BatchNorm2d\<close>, \<open>nn.ReLU6\<close>,
  \<open>nn.AdaptiveAvgPool2d\<close> and \<open>nn.Linear\<close> belong to the tensor library;
  \<open>LQ_Conv2d\<close> comes from the module \<open>functions\<close> (\<open>from functions import *\<close>).
  The trainable parameters of a module (drawn at random when the network is constructed,
  see \<open>_initialize_weights\<close>, and changed by training) are a value of an abstract
  type \<open>'w\<close> stored with the module.

  \<open>q_groups = None\<close> records that the call passes no \<open>groups\<close> argument.
\<close>

record Conv2d_args =
  c_in_channels :: int
  c_out_channels :: int
  c_kernel_size :: int
  c_stride :: int
  c_padding :: int
  c_bias :: bool

text \<open>
  Modelled from the spec: the class \<open>LQ_Conv2d\<close> is defined in the module
  \<open>functions\<close>, which is not among the source files. By the spec (4.2) it is a drop-in
  substitute for an ordinary convolution, with the same parameters and the quantization
  configuration (the three flags \<open>is_qt\<close>, \<open>lq\<close>, \<open>fwlq\<close>) fixed at construction. A module
  of this class is represented by the arguments of the call that constructs it. What the
  missing constructor does with them is not modelled, in particular whether it rejects some
  of them: for \<open>is_qt\<close> and \<open>lq\<close> both set the spec says in one place (4.2) that \<open>is_qt\<close>
  takes precedence and in another (7) that the configuration is fatal at construction.
\<close>

record LQ_Conv2d_args =
  q_in_channels :: int
  q_out_channels :: int
  q_kernel_size :: int
  q_stride :: int
  q_padding :: int
  q_groups :: "int option"
  q_bias :: bool
  q_is_qt :: bool
  q_lq :: bool
  q_fwlq :: bool

datatype 'w layer =
    Conv2d Conv2d_args 'w
  | LQ_Conv2d LQ_Conv2d_args 'w
  | BatchNorm2d int 'w
  | ReLU6 bool

datatype 'w linear = Linear int int 'w

text \<open>
  \<open>nn.Linear(in_features, out_features)\<close> allocates a weight of the shape
  \<open>[out_features, in_features]\<close>; the tensor library raises \<open>RuntimeError\<close> for a negative
  dimension. (\<open>num_classes\<close> is an argument of the network; the channel counts that the
  network passes to the other modules are positive, and what the constructors of those
  modules do with a negative count is not modelled.)
\<close>

definition Linear_init :: "int \<Rightarrow> int \<Rightarrow> 'w \<Rightarrow> error + 'w linear" where
  "Linear_init in_features out_features w =
     (if in_features < 0 \<or> out_features < 0 then Inl RuntimeError
      else Inr (Linear in_features out_features w))"

text \<open>\<open>class InvertedResidual\<close>: the attributes set by \<open>__init__\<close>.\<close>

record 'w InvertedResidual =
  ir_conv :: "'w layer list"
  ir_identity :: bool
  ir_expand_ratio :: int

text \<open>The members of \<open>self.features\<close>: the stem (an \<open>nn.Sequential\<close>) and the blocks.\<close>

datatype 'w feature = Sequential "'w layer list" | Block "'w InvertedResidual"

text \<open>\<open>class MobileNetV2\<close>: the attributes set by \<open>__init__\<close>.\<close>

record 'w MobileNetV2 =
  net_cfgs :: "(int \<times> int \<times> int \<times> int) list"
  net_features :: "'w feature list"
  net_conv :: "'w layer list"
  net_avgpool :: "int \<times> int"
  net_classifier :: "'w linear"

text \<open>
  The parameter values of a network, by position: \<open>p_features P i j\<close> belongs to
  member \<open>j\<close> of \<open>features[i]\<close>, \<open>p_conv P j\<close> to \<open>conv[j]\<close>.
\<close>

record 'w params =
  p_features :: "nat \<Rightarrow> nat \<Rightarrow> 'w"
  p_conv :: "nat \<Rightarrow> 'w"
  p_classifier :: "'w"

subsection \<open>Constructors\<close>

text \<open>\<open>conv_3x3_bn\<close> (the first layer): the three flags are accepted and not used.\<close>

definition conv_3x3_bn ::
  "(nat \<Rightarrow> 'w) \<Rightarrow> int \<Rightarrow> int \<Rightarrow> int \<Rightarrow> bool \<Rightarrow> bool \<Rightarrow> bool \<Rightarrow> 'w layer list" where
  "conv_3x3_bn W inp oup stride is_qt lq fwlq =
     [Conv2d \<lparr>c_in_channels = inp, c_out_channels = oup, c_kernel_size = 3,
              c_stride = stride, c_padding = 1, c_bias = False\<rparr> (W 0),
      BatchNorm2d oup (W 1),
      ReLU6 True]"

definition conv_1x1_bn ::
  "(nat \<Rightarrow> 'w) \<Rightarrow> int \<Rightarrow> int \<Rightarrow> bool \<Rightarrow> bool \<Rightarrow> bool \<Rightarrow> 'w layer list" where
  "conv_1x1_bn W inp oup lq is_qt fwlq =
     [LQ_Conv2d \<lparr>q_in_channels = inp, q_out_channels = oup, q_kernel_size = 1,
                 q_stride = 1, q_padding = 0, q_groups = None, q_bias = False,
                 q_is_qt = is_qt, q_lq = lq, q_fwlq = fwlq\<rparr> (W 0),
      BatchNorm2d oup (W 1),
      ReLU6 True]"

text \<open>
  \<open>InvertedResidual.__init__\<close>; the failing \<open>assert\<close> is \<open>Inl AssertionError\<close>. The
  argument \<open>expand_ratio\<close> is a Python int, as in every call of the source (the stage table
  has the ratios 1 and 6); a float ratio is outside the model. So \<open>inp * expand_ratio\<close> is
  an int, and \<open>round\<close> returns an int unchanged.
\<close>

definition InvertedResidual_init ::
  "(nat \<Rightarrow> 'w) \<Rightarrow> int \<Rightarrow> int \<Rightarrow> int \<Rightarrow> int \<Rightarrow> bool \<Rightarrow> bool \<Rightarrow> bool
     \<Rightarrow> error + 'w InvertedResidual" where
  "InvertedResidual_init W inp oup stride expand_ratio is_qt lq fwlq =
     (if stride \<notin> {1, 2} then Inl AssertionError
      else
        let hidden_dim = inp * expand_ratio;
            identity = (stride = 1 \<and> inp = oup)
        in Inr \<lparr>ir_conv =
                 (if expand_ratio = 1 then
                    [LQ_Conv2d \<lparr>q_in_channels = inp, q_out_channels = hidden_dim,
                                q_kernel_size = 3, q_stride = stride, q_padding = 1,
                                q_groups = Some hidden_dim, q_bias = False,
                                q_is_qt = is_qt, q_lq = lq, q_fwlq = fwlq\<rparr> (W 0),
                     BatchNorm2d hidden_dim (W 1),
                     ReLU6 True,
                     LQ_Conv2d \<lparr>q_in_channels = hidden_dim, q_out_channels = oup,
                                q_kernel_size = 1, q_stride = 1, q_padding = 0,
                                q_groups = None, q_bias = False,
                                q_is_qt = is_qt, q_lq = lq, q_fwlq = fwlq\<rparr> (W 3),
                     BatchNorm2d oup (W 4)]
                  else
                    [LQ_Conv2d \<lparr>q_in_channels = inp, q_out_channels = hidden_dim,
                                q_kernel_size = 1, q_stride = 1, q_padding = 0,
                                q_groups = None, q_bias = False,
                                q_is_qt = is_qt, q_lq = lq, q_fwlq = fwlq\<rparr> (W 0),
                     BatchNorm2d hidden_dim (W 1),
                     ReLU6 True,
                     LQ_Conv2d \<lparr>q_in_channels = hidden_dim, q_out_channels = hidden_dim,
                                q_kernel_size = 3, q_stride = stride, q_padding = 1,
                                q_groups = Some hidden_dim, q_bias = False,
                                q_is_qt = is_qt, q_lq = lq, q_fwlq = fwlq\<rparr> (W 3),
                     BatchNorm2d hidden_dim (W 4),
                     ReLU6 True,
                     LQ_Conv2d \<lparr>q_in_channels = hidden_dim, q_out_channels = oup,
                                q_kernel_size = 1, q_stride = 1, q_padding = 0,
                                q_groups = None, q_bias = False,
                                q_is_qt = is_qt, q_lq = lq, q_fwlq = fwlq\<rparr> (W 6),
                     BatchNorm2d oup (W 7)]),
               ir_identity = identity,
               ir_expand_ratio = expand_ratio\<rparr>)"

text \<open>Line 122 of the source, \<open>width_mult = 1\<close>: a local constant of \<open>MobileNetV2.__init__\<close>.\<close>

definition width_mult :: int where
  "width_mult = 1"

text \<open>
  The inner loop of \<open>MobileNetV2.__init__\<close>, \<open>for i in range(n)\<close>, over the state
  \<open>(layers, input_channel)\<close>; the new block is \<open>features[len(layers)]\<close>.
\<close>

fun blocks_loop ::
  "'w params \<Rightarrow> bool \<Rightarrow> bool \<Rightarrow> bool \<Rightarrow> int \<Rightarrow> int \<Rightarrow> int \<Rightarrow> nat list
     \<Rightarrow> 'w feature list \<times> int \<Rightarrow> error + 'w feature list \<times> int" where
  "blocks_loop P is_qt lq fwlq t output_channel s [] st = Inr st"
| "blocks_loop P is_qt lq fwlq t output_channel s (i # rest) (layers, input_channel) =
     (case InvertedResidual_init (p_features P (length layers)) input_channel output_channel
             (if i = 0 then s else 1) t is_qt lq fwlq of
        Inl e \<Rightarrow> Inl e
      | Inr block \<Rightarrow>
          blocks_loop P is_qt lq fwlq t output_channel s rest
            (layers @ [Block block], output_channel))"

text \<open>
  The outer loop, \<open>for t, c, n, s in self.cfgs\<close>; \<open>range(n)\<close> is empty for
  \<open>n \<le> 0\<close>. The product \<open>c * width_mult\<close> is a product of ints; the literal \<open>0.1\<close> is
  the double \<open>fl64 (1 / 10)\<close>.
\<close>

fun cfgs_loop ::
  "'w params \<Rightarrow> bool \<Rightarrow> bool \<Rightarrow> bool \<Rightarrow> (int \<times> int \<times> int \<times> int) list
     \<Rightarrow> 'w feature list \<times> int \<Rightarrow> error + 'w feature list \<times> int" where
  "cfgs_loop P is_qt lq fwlq [] st = Inr st"
| "cfgs_loop P is_qt lq fwlq ((t, c, n, s) # rows) st =
     (let output_channel =
            make_divisible (real_of_int (c * width_mult))
              (if real_of_int width_mult = fl64 (1 / 10) then 4 else 8) None
      in case blocks_loop P is_qt lq fwlq t output_channel s [0 ..< nat n] st of
           Inl e \<Rightarrow> Inl e
         | Inr st' \<Rightarrow> cfgs_loop P is_qt lq fwlq rows st')"

definition cfgs :: "(int \<times> int \<times> int \<times> int) list" where
  "cfgs =
     [(1,  16, 1, 1),
      (6,  24, 2, 2),
      (6,  32, 3, 2),
      (6,  64, 4, 2),
      (6,  96, 3, 1),
      (6, 160, 3, 2),
      (6, 320, 1, 1)]"

text \<open>
  \<open>MobileNetV2.__init__\<close>. The call \<open>self._initialize_weights()\<close> only assigns parameter
  values; these are given by \<open>P\<close>. The argument \<open>index\<close> is accepted and not used.
\<close>

definition MobileNetV2_init ::
  "'w params \<Rightarrow> int \<Rightarrow> bool \<Rightarrow> bool \<Rightarrow> bool \<Rightarrow> 'i \<Rightarrow> error + 'w MobileNetV2" where
  "MobileNetV2_init P num_classes is_qt lq fwlq index =
     (let input_channel =
            make_divisible (real_of_int (32 * width_mult))
              (if real_of_int width_mult = fl64 (1 / 10) then 4 else 8) None;
          layers = [Sequential (conv_3x3_bn (p_features P 0) 3 input_channel 2 is_qt lq fwlq)]
      in case cfgs_loop P is_qt lq fwlq cfgs (layers, input_channel) of
           Inl e \<Rightarrow> Inl e
         | Inr (layers, input_channel) \<Rightarrow>
             let output_channel =
                   (if 1 < real_of_int width_mult
                    then make_divisible (real_of_int (1280 * width_mult))
                           (if real_of_int width_mult = fl64 (1 / 10) then 4 else 8) None
                    else 1280);
                 conv = conv_1x1_bn (p_conv P) input_channel output_channel lq is_qt fwlq
             in case Linear_init output_channel num_classes (p_classifier P) of
                  Inl e \<Rightarrow> Inl e
                | Inr classifier \<Rightarrow>
                    Inr \<lparr>net_cfgs = cfgs,
                         net_features = layers,
                         net_conv = conv,
                         net_avgpool = (1, 1),
                         net_classifier = classifier\<rparr>)"

definition mobilenetv2_cifar ::
  "'w params \<Rightarrow> int \<Rightarrow> bool \<Rightarrow> bool \<Rightarrow> 'i \<Rightarrow> bool \<Rightarrow> error + 'w MobileNetV2" where
  "mobilenetv2_cifar P num_classes is_qt lq index fwlq =
     MobileNetV2_init P num_classes is_qt lq fwlq index"

subsection \<open>The tensor runtime\<close>

text \<open>
  The forward functions of the tensor library and of \<open>LQ_Conv2d\<close> are parameters of the
  model: a runtime over an abstract type \<open>'t\<close> of tensors, each operation either
  raising or returning. \<open>rt_lq_conv2d\<close> returns the pair that the callers unpack
  with \<open>out, _ = ...\<close>; \<open>rt_view\<close> is \<open>x.view(x.size(0), -1)\<close>; \<open>rt_zero_cuda\<close> is
  \<open>torch.Tensor([0]).cuda()\<close>.
\<close>

record ('w, 't) runtime =
  rt_conv2d :: "Conv2d_args \<Rightarrow> 'w \<Rightarrow> 't \<Rightarrow> error + 't"
  rt_lq_conv2d :: "LQ_Conv2d_args \<Rightarrow> 'w \<Rightarrow> 't \<Rightarrow> error + 't \<times> 't"
  rt_batch_norm2d :: "int \<Rightarrow> 'w \<Rightarrow> 't \<Rightarrow> error + 't"
  rt_relu6 :: "bool \<Rightarrow> 't \<Rightarrow> error + 't"
  rt_adaptive_avg_pool2d :: "int \<times> int \<Rightarrow> 't \<Rightarrow> error + 't"
  rt_view :: "'t \<Rightarrow> error + 't"
  rt_linear :: "int \<Rightarrow> int \<Rightarrow> 'w \<Rightarrow> 't \<Rightarrow> error + 't"
  rt_add :: "'t \<Rightarrow> 't \<Rightarrow> error + 't"
  rt_zero_cuda :: "error + 't"

text \<open>Sequencing of calls that may raise: the first exception ends the computation.\<close>

definition and_then :: "error + 'a \<Rightarrow> ('a \<Rightarrow> error + 'b) \<Rightarrow> error + 'b" where
  "and_then m f = (case m of Inl e \<Rightarrow> Inl e | Inr a \<Rightarrow> f a)"

text \<open>\<open>xs[i]\<close> and \<open>xs[i:j]\<close> for indices that are not negative.\<close>

definition getitem :: "'a list \<Rightarrow> nat \<Rightarrow> error + 'a" where
  "getitem xs i = (if i < length xs then Inr (xs ! i) else Inl IndexError)"

definition slice :: "'a list \<Rightarrow> nat \<Rightarrow> nat \<Rightarrow> 'a list" where
  "slice xs i j = take (j - i) (drop i xs)"

text \<open>
  A module called where its result is used as a tensor, and a module called where its
  result is unpacked as a pair. The constructors above put only \<open>LQ_Conv2d\<close> modules
  at the unpacked positions and none inside the slices passed on as tensors; for any other
  module list the model raises \<open>TypeError\<close> at the first mismatch.
\<close>

fun layer_forward :: "('w, 't) runtime \<Rightarrow> 'w layer \<Rightarrow> 't \<Rightarrow> error + 't" where
  "layer_forward rt (Conv2d a w) x = rt_conv2d rt a w x"
| "layer_forward rt (BatchNorm2d n w) x = rt_batch_norm2d rt n w x"
| "layer_forward rt (ReLU6 inplace) x = rt_relu6 rt inplace x"
| "layer_forward rt (LQ_Conv2d a w) x = Inl TypeError"

fun lq_forward :: "('w, 't) runtime \<Rightarrow> 'w layer \<Rightarrow> 't \<Rightarrow> error + 't \<times> 't" where
  "lq_forward rt (LQ_Conv2d a w) x = rt_lq_conv2d rt a w x"
| "lq_forward rt (Conv2d a w) x = Inl TypeError"
| "lq_forward rt (BatchNorm2d n w) x = Inl TypeError"
| "lq_forward rt (ReLU6 inplace) x = Inl TypeError"

text \<open>\<open>nn.Sequential.forward\<close>: each module is applied to the result of the one before.\<close>

fun Sequential_forward :: "('w, 't) runtime \<Rightarrow> 'w layer list \<Rightarrow> 't \<Rightarrow> error + 't" where
  "Sequential_forward rt [] x = Inr x"
| "Sequential_forward rt (m # ms) x = and_then (layer_forward rt m x) (Sequential_forward rt ms)"

subsection \<open>Forward passes\<close>

text \<open>\<open>InvertedResidual.forward\<close>.\<close>

definition InvertedResidual_forward ::
  "('w, 't) runtime \<Rightarrow> 'w InvertedResidual \<Rightarrow> 't \<Rightarrow> error + 't" where
  "InvertedResidual_forward rt self x =
     and_then
       (if ir_expand_ratio self = 1 then
          and_then (getitem (ir_conv self) 0) (\<lambda>m0.
          and_then (lq_forward rt m0 x) (\<lambda>(out, _).
          and_then (Sequential_forward rt (slice (ir_conv self) 1 3) out) (\<lambda>out.
          and_then (getitem (ir_conv self) 3) (\<lambda>m3.
          and_then (lq_forward rt m3 out) (\<lambda>(out, _).
          and_then (getitem (ir_conv self) 4) (\<lambda>m4.
          layer_forward rt m4 out))))))
        else
          and_then (getitem (ir_conv self) 0) (\<lambda>m0.
          and_then (lq_forward rt m0 x) (\<lambda>(out, _).
          and_then (Sequential_forward rt (slice (ir_conv self) 1 3) out) (\<lambda>out.
          and_then (getitem (ir_conv self) 3) (\<lambda>m3.
          and_then (lq_forward rt m3 out) (\<lambda>(out, _).
          and_then (Sequential_forward rt (slice (ir_conv self) 4 6) out) (\<lambda>out.
          and_then (getitem (ir_conv self) 6) (\<lambda>m6.
          and_then (lq_forward rt m6 out) (\<lambda>(out, _).
          Inr out)))))))))
       (\<lambda>out. if ir_identity self then rt_add rt x out else Inr out)"

text \<open>\<open>self.features(x)\<close>: the members of \<open>features\<close> in order.\<close>

fun feature_forward :: "('w, 't) runtime \<Rightarrow> 'w feature \<Rightarrow> 't \<Rightarrow> error + 't" where
  "feature_forward rt (Sequential ms) x = Sequential_forward rt ms x"
| "feature_forward rt (Block b) x = InvertedResidual_forward rt b x"

fun features_forward :: "('w, 't) runtime \<Rightarrow> 'w feature list \<Rightarrow> 't \<Rightarrow> error + 't" where
  "features_forward rt [] x = Inr x"
| "features_forward rt (f # fs) x = and_then (feature_forward rt f x) (features_forward rt fs)"

fun Linear_forward :: "('w, 't) runtime \<Rightarrow> 'w linear \<Rightarrow> 't \<Rightarrow> error + 't" where
  "Linear_forward rt (Linear i o' w) x = rt_linear rt i o' w x"

text \<open>\<open>MobileNetV2.forward\<close>.\<close>

definition MobileNetV2_forward ::
  "('w, 't) runtime \<Rightarrow> 'w MobileNetV2 \<Rightarrow> 't \<Rightarrow> error + 't \<times> 't" where
  "MobileNetV2_forward rt self x =
     and_then (features_forward rt (net_features self) x) (\<lambda>x.
     and_then (getitem (net_conv self) 0) (\<lambda>m0.
     and_then (lq_forward rt m0 x) (\<lambda>(x, _).
     and_then (Sequential_forward rt (drop 1 (net_conv self)) x) (\<lambda>x.
     and_then (rt_adaptive_avg_pool2d rt (net_avgpool self) x) (\<lambda>x.
     and_then (rt_view rt x) (\<lambda>x.
     and_then (Linear_forward rt (net_classifier self) x) (\<lambda>x.
     and_then (rt_zero_cuda rt) (\<lambda>zero.
     Inr (x, zero)))))))))"

subsection \<open>Shapes\<close>

text \<open>
  Modelled from the spec: the forward functions of the tensor library and of
  \<open>LQ_Conv2d\<close> (module \<open>functions\<close>) are not part of the source file. At the level of
  shapes the spec fixes them: a quantization-aware convolution maps
  \<open>[N, C_in, H, W]\<close> to \<open>[N, C_out, H', W']\<close> "exactly as an ordinary
  strided/grouped/padded convolution would", plus a scalar auxiliary signal; normalization
  and activation keep the shape; the pool goes to the given spatial size; the flattening
  keeps the batch dimension; the affine layer maps the last dimension; the residual add
  needs identical shapes. A tensor is represented by its shape. The output size of a
  convolution is the ordinary one, \<open>(H + 2 * padding - kernel) div stride + 1\<close>.
\<close>

definition conv_shape ::
  "int \<Rightarrow> int \<Rightarrow> int \<Rightarrow> int \<Rightarrow> int \<Rightarrow> int \<Rightarrow> int list \<Rightarrow> error + int list" where
  "conv_shape cin cout k s p g x =
     (case x of
        [n, c, h, w] \<Rightarrow>
          if c = cin \<and> 0 < g \<and> cin mod g = 0 \<and> cout mod g = 0 \<and> 0 < s
             \<and> k \<le> h + 2 * p \<and> k \<le> w + 2 * p
          then Inr [n, cout, (h + 2 * p - k) div s + 1, (w + 2 * p - k) div s + 1]
          else Inl RuntimeError
      | _ \<Rightarrow> Inl RuntimeError)"

text \<open>
  Modelled from the spec: the runtime on shapes. A call that passes no \<open>groups\<close> has one
  group; the auxiliary signal of a quantization-aware convolution is a scalar, of shape
  \<open>[]\<close>; \<open>torch.Tensor([0])\<close> has the shape \<open>[1]\<close>.
\<close>

definition shape_runtime :: "('w, int list) runtime" where
  "shape_runtime =
     \<lparr>rt_conv2d = (\<lambda>a w x.
        conv_shape (c_in_channels a) (c_out_channels a) (c_kernel_size a) (c_stride a)
          (c_padding a) 1 x),
      rt_lq_conv2d = (\<lambda>a w x.
        and_then
          (conv_shape (q_in_channels a) (q_out_channels a) (q_kernel_size a) (q_stride a)
             (q_padding a) (case q_groups a of None \<Rightarrow> 1 | Some g \<Rightarrow> g) x)
          (\<lambda>y. Inr (y, []))),
      rt_batch_norm2d = (\<lambda>n w x.
        case x of [b, c, h, w'] \<Rightarrow> if c = n then Inr x else Inl RuntimeError
                | _ \<Rightarrow> Inl RuntimeError),
      rt_relu6 = (\<lambda>inplace x. Inr x),
      rt_adaptive_avg_pool2d = (\<lambda>(oh, ow) x.
        case x of [b, c, h, w'] \<Rightarrow> Inr [b, c, oh, ow] | _ \<Rightarrow> Inl RuntimeError),
      rt_view = (\<lambda>x. case x of [] \<Rightarrow> Inl RuntimeError | b # rest \<Rightarrow> Inr [b, prod_list rest]),
      rt_linear = (\<lambda>i o' w x.
        case x of [b, f] \<Rightarrow> if f = i then Inr [b, o'] else Inl RuntimeError
                | _ \<Rightarrow> Inl RuntimeError),
      rt_add = (\<lambda>x y. if x = y then Inr x else Inl RuntimeError),
      rt_zero_cuda = Inr [1]\<rparr>"

subsection \<open>Notions used to state the properties\<close>

text \<open>The quantization-aware convolutions of a module list, and their arguments.\<close>

fun is_lq :: "'w layer \<Rightarrow> bool" where
  "is_lq (LQ_Conv2d a w) = True"
| "is_lq (Conv2d a w) = False"
| "is_lq (BatchNorm2d n w) = False"
| "is_lq (ReLU6 inplace) = False"

fun lq_args_of :: "'w layer list \<Rightarrow> LQ_Conv2d_args list" where
  "lq_args_of [] = []"
| "lq_args_of (LQ_Conv2d a w # ms) = a # lq_args_of ms"
| "lq_args_of (Conv2d a w # ms) = lq_args_of ms"
| "lq_args_of (BatchNorm2d n w # ms) = lq_args_of ms"
| "lq_args_of (ReLU6 inplace # ms) = lq_args_of ms"

fun feature_lq_args :: "'w feature \<Rightarrow> LQ_Conv2d_args list" where
  "feature_lq_args (Sequential ms) = lq_args_of ms"
| "feature_lq_args (Block b) = lq_args_of (ir_conv b)"

text \<open>
  The stage pipeline of a block: every module of \<open>conv\<close> once, in order, each applied to
  the tensor produced by the one before; of the pair returned by a quantization-aware
  convolution the tensor is passed on.
\<close>

fun stage_forward :: "('w, 't) runtime \<Rightarrow> 'w layer \<Rightarrow> 't \<Rightarrow> error + 't" where
  "stage_forward rt (LQ_Conv2d a w) x = and_then (rt_lq_conv2d rt a w x) (\<lambda>(out, aux). Inr out)"
| "stage_forward rt (Conv2d a w) x = rt_conv2d rt a w x"
| "stage_forward rt (BatchNorm2d n w) x = rt_batch_norm2d rt n w x"
| "stage_forward rt (ReLU6 inplace) x = rt_relu6 rt inplace x"

fun stage_pipeline :: "('w, 't) runtime \<Rightarrow> 'w layer list \<Rightarrow> 't \<Rightarrow> error + 't" where
  "stage_pipeline rt [] x = Inr x"
| "stage_pipeline rt (m # ms) x = and_then (stage_forward rt m x) (stage_pipeline rt ms)"

text \<open>
  The blocks that the spec prescribes for a stage configuration table, as the arguments
  \<open>(in_channels, out_channels, stride, expand_ratio)\<close> of their constructor calls: per
  row \<open>(t, c, n, s)\<close> with rounded output channel count \<open>rounded\<close>, \<open>n\<close> blocks, the
  first with stride \<open>s\<close> and the running channel count as input, the others with stride 1
  and \<open>rounded\<close> as input; after each block the running channel count is \<open>rounded\<close>.
\<close>

fun spec_block_args ::
  "int \<Rightarrow> (int \<times> int \<times> int \<times> int) list \<Rightarrow> (int \<times> int \<times> int \<times> int) list" where
  "spec_block_args running [] = []"
| "spec_block_args running ((t, c, n, s) # rows) =
     (let rounded =
            make_divisible (real_of_int (c * width_mult))
              (if real_of_int width_mult = fl64 (1 / 10) then 4 else 8) None
      in if 0 < n
         then (running, rounded, s, t) # replicate (nat n - 1) (rounded, rounded, 1, t)
                @ spec_block_args rounded rows
         else spec_block_args running rows)"

fun spec_running :: "int \<Rightarrow> (int \<times> int \<times> int \<times> int) list \<Rightarrow> int" where
  "spec_running running [] = running"
| "spec_running running ((t, c, n, s) # rows) =
     (let rounded =
            make_divisible (real_of_int (c * width_mult))
              (if real_of_int width_mult = fl64 (1 / 10) then 4 else 8) None
      in spec_running (if 0 < n then rounded else running) rows)"

text \<open>
  \<open>built_from P is_qt lq fwlq k args bs\<close>: the blocks \<open>bs\<close> are the results of the
  constructor calls with the arguments \<open>args\<close>, in order, as \<open>features[k]\<close>,
  \<open>features[k + 1]\<close>, ...
\<close>

fun built_from ::
  "'w params \<Rightarrow> bool \<Rightarrow> bool \<Rightarrow> bool \<Rightarrow> nat \<Rightarrow> (int \<times> int \<times> int \<times> int) list
     \<Rightarrow> 'w InvertedResidual list \<Rightarrow> bool" where
  "built_from P is_qt lq fwlq k [] bs = (bs = [])"
| "built_from P is_qt lq fwlq k ((inp, oup, stride, t) # args) bs =
     (case bs of
        [] \<Rightarrow> False
      | b # bs' \<Rightarrow>
          InvertedResidual_init (p_features P k) inp oup stride t is_qt lq fwlq = Inr b
          \<and> built_from P is_qt lq fwlq (Suc k) args bs')"

text \<open>The constructor arguments used by one run of the inner loop.\<close>

fun loop_args :: "int \<Rightarrow> int \<Rightarrow> int \<Rightarrow> int \<Rightarrow> nat list \<Rightarrow> (int \<times> int \<times> int \<times> int) list" where
  "loop_args ic oc s t [] = []"
| "loop_args ic oc s t (i # rest) = (ic, oc, if i = 0 then s else 1, t) # loop_args oc oc s t rest"

text \<open>
  The spec's wording of the head's output channel count, as a function of the width
  multiplier: "1280 x width_multiplier rounded channels, or 1280 if width_multiplier > 1".
\<close>

definition spec_last_channel :: "int \<Rightarrow> int" where
  "spec_last_channel w =
     (if 1 < w then 1280
      else make_divisible (real_of_int (1280 * w))
             (if real_of_int w = fl64 (1 / 10) then 4 else 8) None)"


text \<open>A parameter assignment for the examples: every module has the parameter \<open>()\<close>.\<close>

definition unit_params :: "unit params" where
  "unit_params = \<lparr>p_features = (\<lambda>i j. ()), p_conv = (\<lambda>j. ()), p_classifier = ()\<rparr>"

text \<open>
  A runtime that records the calls: a tensor is the list of the operations that produced
  it, starting from the names given as input.
\<close>

definition trace_runtime :: "('w, string list) runtime" where
  "trace_runtime =
     \<lparr>rt_conv2d = (\<lambda>a w x. Inr (x @ [''conv2d''])),
      rt_lq_conv2d = (\<lambda>a w x. Inr (x @ [''lq_conv2d''], [''aux''])),
      rt_batch_norm2d = (\<lambda>n w x. Inr (x @ [''batch_norm2d''])),
      rt_relu6 = (\<lambda>inplace x. Inr (x @ [''relu6''])),
      rt_adaptive_avg_pool2d = (\<lambda>size x. Inr (x @ [''adaptive_avg_pool2d''])),
      rt_view = (\<lambda>x. Inr (x @ [''view''])),
      rt_linear = (\<lambda>i o' w x. Inr (x @ [''linear''])),
      rt_add = (\<lambda>x y. Inr (x @ [''+''] @ y)),
      rt_zero_cuda = Inr [''zero'']\<rparr>"

section \<open>Properties\<close>

subsection \<open>Double-precision arithmetic\<close>

lemma rhe_of_int: "round_half_even (real_of_int k) = k"
  by (simp add: round_half_even_def)

lemma rhe_bounds: "\<lfloor>x\<rfloor> \<le> round_half_even x \<and> round_half_even x \<le> \<lfloor>x\<rfloor> + 1"
  by (simp add: round_half_even_def Let_def)

lemma rhe_ge: "real_of_int k \<le> x \<Longrightarrow> k \<le> round_half_even x"
proof -
  assume "real_of_int k \<le> x"
  then have "k \<le> \<lfloor>x\<rfloor>" by (simp add: le_floor_iff)
  with rhe_bounds [of x] show ?thesis by linarith
qed

lemma rhe_le: "x \<le> real_of_int k \<Longrightarrow> round_half_even x \<le> k"
proof (cases "x = real_of_int k")
  case True
  then show ?thesis by (simp add: rhe_of_int)
next
  case False
  assume "x \<le> real_of_int k"
  with False have "x < real_of_int k" by simp
  then have "\<lfloor>x\<rfloor> < k" by (simp add: floor_less_iff)
  with rhe_bounds [of x] show ?thesis by linarith
qed

lemma rhe_mono: "x \<le> y \<Longrightarrow> round_half_even x \<le> round_half_even y"
proof -
  assume xy: "x \<le> y"
  then have f: "\<lfloor>x\<rfloor> \<le> \<lfloor>y\<rfloor>" by (rule floor_mono)
  show ?thesis
  proof (cases "\<lfloor>x\<rfloor> = \<lfloor>y\<rfloor>")
    case True
    with xy show ?thesis by (auto simp add: round_half_even_def Let_def)
  next
    case False
    with f have "\<lfloor>x\<rfloor> + 1 \<le> \<lfloor>y\<rfloor>" by simp
    with rhe_bounds [of x] rhe_bounds [of y] show ?thesis by linarith
  qed
qed

lemma expo_bounds:
  assumes "0 < x"
  shows "2 powr real_of_int \<lfloor>log 2 x\<rfloor> \<le> x" and "x < 2 powr real_of_int (\<lfloor>log 2 x\<rfloor> + 1)"
proof -
  have a: "(real_of_int \<lfloor>log 2 x\<rfloor> \<le> log 2 x) = (2 powr real_of_int \<lfloor>log 2 x\<rfloor> \<le> x)"
    using assms by (intro le_log_iff) simp_all
  have "real_of_int \<lfloor>log 2 x\<rfloor> \<le> log 2 x" by (rule of_int_floor_le)
  with a show "2 powr real_of_int \<lfloor>log 2 x\<rfloor> \<le> x" by blast
  have b: "(log 2 x < real_of_int (\<lfloor>log 2 x\<rfloor> + 1)) = (x < 2 powr real_of_int (\<lfloor>log 2 x\<rfloor> + 1))"
    using assms by (intro log_less_iff) simp_all
  have "log 2 x < real_of_int (\<lfloor>log 2 x\<rfloor> + 1)" by linarith
  with b show "x < 2 powr real_of_int (\<lfloor>log 2 x\<rfloor> + 1)" by blast
qed

lemma expo_unique:
  assumes "2 powr real_of_int e \<le> x" and "x < 2 powr real_of_int (e + 1)"
  shows "\<lfloor>log 2 x\<rfloor> = e"
proof -
  have "0 < 2 powr real_of_int e" by simp
  with assms(1) have pos: "0 < x" by linarith
  have a: "(real_of_int e \<le> log 2 x) = (2 powr real_of_int e \<le> x)"
    using pos by (intro le_log_iff) simp_all
  have b: "(log 2 x < real_of_int (e + 1)) = (x < 2 powr real_of_int (e + 1))"
    using pos by (intro log_less_iff) simp_all
  from a assms(1) have "real_of_int e \<le> log 2 x" by blast
  moreover from b assms(2) have "log 2 x < real_of_int (e + 1)" by blast
  ultimately show ?thesis by (intro floor_unique) simp_all
qed

lemma expo_mono:
  assumes "0 < x" and "x \<le> y"
  shows "\<lfloor>log 2 x\<rfloor> \<le> \<lfloor>log 2 y\<rfloor>"
proof -
  have "log 2 x \<le> log 2 y" using assms by simp
  then show ?thesis by (rule floor_mono)
qed

text \<open>The value of fl64 on a positive number, with its exponent and unit in the last place.\<close>

lemma fl64_pos:
  assumes "0 < x"
  shows "fl64 x =
     real_of_int (round_half_even (x / 2 powr real_of_int (max \<lfloor>log 2 x\<rfloor> (- 1022) - 52)))
       * 2 powr real_of_int (max \<lfloor>log 2 x\<rfloor> (- 1022) - 52)"
  using assms by (simp add: fl64_def Let_def)

lemma fl64_eval:
  assumes "2 powr real_of_int e \<le> x" and "x < 2 powr real_of_int (e + 1)" and "- 1022 \<le> e"
  shows "fl64 x = real_of_int (round_half_even (x / 2 powr real_of_int (e - 52)))
                    * 2 powr real_of_int (e - 52)"
proof -
  have "0 < 2 powr real_of_int e" by simp
  with assms(1) have pos: "0 < x" by linarith
  have "\<lfloor>log 2 x\<rfloor> = e" using assms(1,2) by (rule expo_unique)
  with assms(3) have "max \<lfloor>log 2 x\<rfloor> (- 1022) = e" by simp
  then show ?thesis using fl64_pos [OF pos] by simp
qed

lemma fl64_nonneg: "0 \<le> x \<Longrightarrow> 0 \<le> fl64 x"
proof (cases "x = 0")
  case True
  then show ?thesis by (simp add: fl64_def)
next
  case False
  assume "0 \<le> x"
  with False have pos: "0 < x" by simp
  let ?u = "2 powr real_of_int (max \<lfloor>log 2 x\<rfloor> (- 1022) - 52)"
  have "0 \<le> x / ?u" using pos by simp
  then have "real_of_int 0 \<le> x / ?u" by simp
  then have "0 \<le> round_half_even (x / ?u)" by (rule rhe_ge)
  then show ?thesis using fl64_pos [OF pos] by simp
qed

lemma pow2_shift: "(2::real) powr (a + real n) = 2 ^ n * 2 powr a"
proof -
  have "(2::real) powr (a + real n) = 2 powr a * 2 powr real n" by (rule powr_add)
  also have "(2::real) powr real n = 2 ^ n" by (simp add: powr_realpow)
  finally show ?thesis by simp
qed

lemma pow2_53: "(2::real) powr (real_of_int e + 1) = real_of_int (2 ^ 53) * 2 powr real_of_int (e - 52)"
  using pow2_shift [of "real_of_int (e - 52)" 53] by (simp add: add.commute)

lemma pow2_52: "(2::real) powr real_of_int e = real_of_int (2 ^ 52) * 2 powr real_of_int (e - 52)"
  using pow2_shift [of "real_of_int (e - 52)" 52] by simp

lemma fl64_upper:
  assumes "0 < x"
  shows "fl64 x \<le> 2 powr (real_of_int (max \<lfloor>log 2 x\<rfloor> (- 1022)) + 1)"
proof -
  let ?e = "max \<lfloor>log 2 x\<rfloor> (- 1022)"
  let ?u = "2 powr real_of_int (?e - 52)"
  have u: "0 < ?u" by simp
  have "x < 2 powr real_of_int (\<lfloor>log 2 x\<rfloor> + 1)" using assms by (rule expo_bounds)
  also have "\<dots> \<le> 2 powr (real_of_int ?e + 1)" by simp
  finally have "x < real_of_int (2 ^ 53) * ?u" by (simp only: pow2_53)
  then have "x / ?u \<le> real_of_int (2 ^ 53)" using u by (simp add: pos_divide_le_eq)
  then have "round_half_even (x / ?u) \<le> 2 ^ 53" by (rule rhe_le)
  then have "real_of_int (round_half_even (x / ?u)) \<le> real_of_int (2 ^ 53)"
    by (simp only: of_int_le_iff)
  then have "real_of_int (round_half_even (x / ?u)) * ?u \<le> real_of_int (2 ^ 53) * ?u"
    using u by (simp only: mult_le_cancel_right_pos)
  then show ?thesis by (simp only: fl64_pos [OF assms] pow2_53)
qed

lemma fl64_lower:
  assumes "0 < x" and "- 1022 \<le> \<lfloor>log 2 x\<rfloor>"
  shows "2 powr real_of_int \<lfloor>log 2 x\<rfloor> \<le> fl64 x"
proof -
  let ?e = "\<lfloor>log 2 x\<rfloor>"
  let ?u = "2 powr real_of_int (?e - 52)"
  have m: "max ?e (- 1022) = ?e" using assms(2) by simp
  have u: "0 < ?u" by simp
  have "2 powr real_of_int ?e \<le> x" using assms(1) by (rule expo_bounds)
  then have "real_of_int (2 ^ 52) * ?u \<le> x" by (simp only: pow2_52 [symmetric])
  then have "real_of_int (2 ^ 52) \<le> x / ?u" using u by (simp add: pos_le_divide_eq)
  then have "2 ^ 52 \<le> round_half_even (x / ?u)" by (rule rhe_ge)
  then have "real_of_int (2 ^ 52) \<le> real_of_int (round_half_even (x / ?u))"
    by (simp only: of_int_le_iff)
  then have "real_of_int (2 ^ 52) * ?u \<le> real_of_int (round_half_even (x / ?u)) * ?u"
    using u by (simp only: mult_le_cancel_right_pos)
  then have "2 powr real_of_int ?e \<le> real_of_int (round_half_even (x / ?u)) * ?u"
    by (simp only: pow2_52 [symmetric])
  then show ?thesis using fl64_pos [OF assms(1)] by (simp only: m)
qed

lemma fl64_mono:
  assumes "0 \<le> x" and "x \<le> y"
  shows "fl64 x \<le> fl64 y"
proof (cases "x = 0")
  case True
  then show ?thesis using assms fl64_nonneg [of y] by (simp add: fl64_def)
next
  case False
  with assms have px: "0 < x" and py: "0 < y" by simp_all
  let ?ex = "max \<lfloor>log 2 x\<rfloor> (- 1022)"
  let ?ey = "max \<lfloor>log 2 y\<rfloor> (- 1022)"
  have le: "?ex \<le> ?ey" using expo_mono [OF px assms(2)] by simp
  show ?thesis
  proof (cases "?ex = ?ey")
    case True
    let ?u = "2 powr real_of_int (?ex - 52)"
    have "x / ?u \<le> y / ?u" using assms(2) by (simp add: divide_right_mono)
    then have "round_half_even (x / ?u) \<le> round_half_even (y / ?u)" by (rule rhe_mono)
    then have "real_of_int (round_half_even (x / ?u)) * ?u \<le> real_of_int (round_half_even (y / ?u)) * ?u"
      by (simp add: mult_right_mono)
    then show ?thesis using fl64_pos [OF px] fl64_pos [OF py] True by simp
  next
    case False
    with le have lt: "?ex + 1 \<le> ?ey" by simp
    then have ey: "?ey = \<lfloor>log 2 y\<rfloor>" and n: "- 1022 \<le> \<lfloor>log 2 y\<rfloor>" by linarith+
    have "fl64 x \<le> 2 powr (real_of_int ?ex + 1)" using px by (rule fl64_upper)
    also have "\<dots> = 2 powr real_of_int (?ex + 1)" by simp
    also have "\<dots> \<le> 2 powr real_of_int ?ey" using lt by simp
    also have "\<dots> = 2 powr real_of_int \<lfloor>log 2 y\<rfloor>" using ey by simp
    also have "\<dots> \<le> fl64 y" using py n by (rule fl64_lower)
    finally show ?thesis .
  qed
qed


lemma fl64_repr:
  assumes "0 < k" and "k < 2 ^ 53" and "- 1074 \<le> j"
  shows "fl64 (real_of_int k * 2 powr real_of_int j) = real_of_int k * 2 powr real_of_int j"
proof -
  define y where "y = real_of_int k * 2 powr real_of_int j"
  define e where "e = max \<lfloor>log 2 y\<rfloor> (- 1022)"
  have ypos: "0 < y" using assms(1) by (simp add: y_def)
  have "real_of_int k < real_of_int (2 ^ 53)" using assms(2) by (simp only: of_int_less_iff)
  then have "y < real_of_int (2 ^ 53) * 2 powr real_of_int ((j + 52) - 52)"
    by (simp add: y_def)
  then have "y < 2 powr (real_of_int (j + 52) + 1)" by (simp only: pow2_53)
  moreover have "2 powr real_of_int \<lfloor>log 2 y\<rfloor> \<le> y" using ypos by (rule expo_bounds)
  ultimately have "2 powr real_of_int \<lfloor>log 2 y\<rfloor> < 2 powr (real_of_int (j + 52) + 1)"
    by linarith
  then have "real_of_int \<lfloor>log 2 y\<rfloor> < real_of_int (j + 52) + 1" by simp
  then have "\<lfloor>log 2 y\<rfloor> \<le> j + 52" by linarith
  with assms(3) have ej: "e - 52 \<le> j" by (simp add: e_def)
  define n where "n = nat (j - (e - 52))"
  have j: "real_of_int j = real_of_int (e - 52) + real n" using ej by (simp add: n_def)
  have "2 powr real_of_int j = 2 ^ n * 2 powr real_of_int (e - 52)"
    by (simp only: j pow2_shift)
  then have y: "y = real_of_int (k * 2 ^ n) * 2 powr real_of_int (e - 52)"
    by (simp add: y_def)
  have "y / 2 powr real_of_int (e - 52) = real_of_int (k * 2 ^ n)"
    by (simp add: y)
  then have "round_half_even (y / 2 powr real_of_int (e - 52)) = k * 2 ^ n"
    by (simp only: rhe_of_int)
  then have "fl64 y = real_of_int (k * 2 ^ n) * 2 powr real_of_int (e - 52)"
    using fl64_pos [OF ypos] by (simp only: e_def [symmetric])
  then show ?thesis using y by (simp only: y_def [symmetric])
qed

lemma fl64_of_int:
  assumes "0 \<le> k" and "k < 2 ^ 53"
  shows "fl64 (real_of_int k) = real_of_int k"
proof (cases "k = 0")
  case True
  then show ?thesis by (simp add: fl64_def)
next
  case False
  with assms have "0 < k" by simp
  from fl64_repr [OF this assms(2), of 0] show ?thesis by simp
qed

lemma fl64_half_int:
  assumes "0 < k" and "k < 2 ^ 53"
  shows "fl64 (real_of_int k / 2) = real_of_int k / 2"
proof -
  have "(2::real) powr real_of_int (- 1) = 1 / 2" by (simp add: powr_minus_divide)
  with fl64_repr [OF assms, of "- 1"] show ?thesis by simp
qed

lemma fl64_idem:
  assumes "0 \<le> x"
  shows "fl64 (fl64 x) = fl64 x"
proof (cases "x = 0")
  case True
  then show ?thesis by (simp add: fl64_def)
next
  case False
  with assms have pos: "0 < x" by simp
  define e where "e = max \<lfloor>log 2 x\<rfloor> (- 1022)"
  define u where "u = 2 powr real_of_int (e - 52)"
  define K where "K = round_half_even (x / u)"
  have u: "0 < u" by (simp add: u_def)
  have f: "fl64 x = real_of_int K * u"
    using fl64_pos [OF pos] by (simp only: K_def u_def e_def)
  have e: "- 1022 \<le> e" by (simp add: e_def)
  have "real_of_int 0 \<le> x / u" using pos u by simp
  then have K0: "0 \<le> K" unfolding K_def by (rule rhe_ge)
  have "x < 2 powr real_of_int (\<lfloor>log 2 x\<rfloor> + 1)" using pos by (rule expo_bounds)
  also have "\<dots> \<le> 2 powr (real_of_int e + 1)" by (simp add: e_def)
  finally have "x < real_of_int (2 ^ 53) * u" by (simp only: pow2_53 u_def)
  then have "x / u \<le> real_of_int (2 ^ 53)" using u by (simp add: pos_divide_le_eq)
  then have K53: "K \<le> 2 ^ 53" unfolding K_def by (rule rhe_le)
  consider "K = 0" | "0 < K" "K < 2 ^ 53" | "K = 2 ^ 53" using K0 K53 by linarith
  then show ?thesis
  proof cases
    case 1
    then have z: "fl64 x = 0" by (simp add: f)
    have "fl64 0 = 0" by (simp add: fl64_def)
    then show ?thesis by (simp only: z)
  next
    case 2
    have "- 1074 \<le> e - 52" using e by simp
    from fl64_repr [OF 2 this] show ?thesis by (simp only: f u_def)
  next
    case 3
    have "fl64 x = real_of_int (2 ^ 53) * 2 powr real_of_int (e - 52)"
      by (simp only: f 3 u_def)
    also have "\<dots> = 2 powr (real_of_int e + 1)" by (simp only: pow2_53)
    also have "\<dots> = 2 powr real_of_int (e + 1)" by simp
    also have "\<dots> = real_of_int (2 ^ 52) * 2 powr real_of_int (e + 1 - 52)" by (rule pow2_52)
    finally have g: "fl64 x = real_of_int (2 ^ 52) * 2 powr real_of_int (e + 1 - 52)" .
    have "- 1074 \<le> e + 1 - 52" using e by simp
    moreover have "(0::int) < 2 ^ 52" "(2::int) ^ 52 < 2 ^ 53" by simp_all
    ultimately show ?thesis using fl64_repr [of "2 ^ 52" "e + 1 - 52"] by (simp only: g)
  qed
qed

text \<open>Rounding does not cross a number that is itself a rounded value.\<close>

lemma fl64_le_fl64: "0 \<le> y \<Longrightarrow> y \<le> fl64 z \<Longrightarrow> 0 \<le> z \<Longrightarrow> fl64 y \<le> fl64 z"
  using fl64_mono [of y "fl64 z"] fl64_idem [of z] by simp



lemma fl64_nine_tenths: "fl64 (9 / 10) = 8106479329266893 / 9007199254740992"
proof -
  have "fl64 (9 / 10) = real_of_int (round_half_even ((9 / 10) / 2 powr real_of_int (- 1 - 52)))
                    * 2 powr real_of_int (- 1 - 52)"
    by (rule fl64_eval) (simp_all add: powr_minus_divide)
  then show ?thesis by (simp add: powr_minus_divide round_half_even_def)
qed

lemma fl64_one_tenth: "fl64 (1 / 10) = 3602879701896397 / 36028797018963968"
proof -
  have "fl64 (1 / 10) = real_of_int (round_half_even ((1 / 10) / 2 powr real_of_int (- 4 - 52)))
                    * 2 powr real_of_int (- 4 - 52)"
    by (rule fl64_eval) (simp_all add: powr_minus_divide)
  then show ?thesis by (simp add: powr_minus_divide round_half_even_def)
qed




subsection \<open>Channel rounder\<close>


lemma make_divisible_default:
  "make_divisible v d None =
     (let new_v = max d (py_int (fl64 (fl64 v + fl64 (real_of_int d / 2))) div d * d)
      in if real_of_int new_v < fl64 (fl64 (9 / 10) * fl64 v) then new_v + d else new_v)"
  by (simp add: make_divisible_def Let_def)

text \<open>The computed product \<open>0.9 * v\<close> is not above the converted \<open>v\<close>, the computed sum
  \<open>v + divisor / 2\<close> is not below it.\<close>

lemma product_le:
  assumes "0 \<le> v"
  shows "fl64 (fl64 (9 / 10) * fl64 v) \<le> fl64 v"
proof -
  have v: "0 \<le> fl64 v" using assms by (rule fl64_nonneg)
  then have "fl64 (9 / 10) * fl64 v \<le> fl64 v"
    by (simp add: fl64_nine_tenths mult_left_le_one_le)
  moreover have "0 \<le> fl64 (9 / 10) * fl64 v" using v by (simp add: fl64_nine_tenths)
  ultimately show ?thesis using assms by (intro fl64_le_fl64)
qed



text \<open>On a positive multiple of the divisor below 2^52 the function is the identity.\<close>

lemma make_divisible_multiple:
  assumes "0 < n" and "n < 2 ^ 52" and "d dvd n" and "d = 4 \<or> d = 8"
  shows "make_divisible (real_of_int n) d None = n"
proof -
  from assms(4) have dpos: "0 < d" by auto
  have half: "fl64 (real_of_int d / 2) = real_of_int d / 2"
    using assms(4) fl64_of_int [of 2] fl64_of_int [of 4] by auto
  have n: "fl64 (real_of_int n) = real_of_int n" using assms(1,2) by (intro fl64_of_int) simp_all
  have hd: "real_of_int d / 2 = real_of_int (d div 2)" using assms(4) by auto
  have "0 \<le> n + d div 2" "n + d div 2 < 2 ^ 53" using assms(1,2,4) by auto
  then have "fl64 (real_of_int (n + d div 2)) = real_of_int (n + d div 2)" by (rule fl64_of_int)
  then have x: "fl64 (real_of_int n + real_of_int d / 2) = real_of_int (n + d div 2)"
    by (simp add: hd)
  have "(n + d div 2) div d * d = n" using assms(3,4) by (auto elim!: dvdE)
  moreover have "d \<le> n" using assms(1,3) dpos by (simp add: zdvd_imp_le)
  ultimately have q: "max d (py_int (real_of_int (n + d div 2)) div d * d) = n"
    using assms(1) dpos by (simp add: py_int_def)
  have "fl64 (fl64 (9 / 10) * fl64 (real_of_int n)) \<le> fl64 (real_of_int n)"
    using assms(1) by (intro product_le) simp
  then have t: "\<not> real_of_int n < fl64 (fl64 (9 / 10) * real_of_int n)" by (simp add: n)
  show ?thesis
    unfolding make_divisible_default Let_def half n x q using t by simp
qed




lemma make_divisible_numeral:
  "(8::int) dvd numeral k \<Longrightarrow> (numeral k :: int) < 2 ^ 52
     \<Longrightarrow> make_divisible (numeral k) 8 None = numeral k"
  using make_divisible_multiple [of "numeral k" 8] by simp





subsection \<open>Blocks\<close>

lemma init_stride:
  fixes s :: int
  shows "InvertedResidual_init W inp oup s t is_qt lq fwlq = Inr b \<Longrightarrow> s = 1 \<or> s = 2"
  by (simp add: InvertedResidual_init_def split: if_splits)

lemma init_value:
  fixes s :: int
  assumes "s = 1 \<or> s = 2"
  shows "\<exists>b. InvertedResidual_init W inp oup s t is_qt lq fwlq = Inr b"
  using assms by (auto simp add: InvertedResidual_init_def Let_def)

lemma init_identity:
  fixes s :: int
  assumes "InvertedResidual_init W inp oup s t is_qt lq fwlq = Inr b"
  shows "ir_identity b = (s = 1 \<and> inp = oup)" and "ir_expand_ratio b = t"
  using assms by (auto simp add: InvertedResidual_init_def Let_def split: if_splits)

lemma init_conv_plain:
  fixes s :: int
  assumes "InvertedResidual_init W inp oup s t is_qt lq fwlq = Inr b" and "t = 1"
  shows "ir_conv b =
      [LQ_Conv2d \<lparr>q_in_channels = inp, q_out_channels = inp, q_kernel_size = 3,
                  q_stride = s, q_padding = 1, q_groups = Some inp, q_bias = False,
                  q_is_qt = is_qt, q_lq = lq, q_fwlq = fwlq\<rparr> (W 0),
       BatchNorm2d inp (W 1),
       ReLU6 True,
       LQ_Conv2d \<lparr>q_in_channels = inp, q_out_channels = oup, q_kernel_size = 1,
                  q_stride = 1, q_padding = 0, q_groups = None, q_bias = False,
                  q_is_qt = is_qt, q_lq = lq, q_fwlq = fwlq\<rparr> (W 3),
       BatchNorm2d oup (W 4)]"
  using assms
  by (auto simp add: InvertedResidual_init_def Let_def split: if_splits)

lemma init_conv_expand:
  fixes s :: int
  assumes "InvertedResidual_init W inp oup s t is_qt lq fwlq = Inr b" and "t \<noteq> 1"
    and "h = inp * t"
  shows "ir_conv b =
      [LQ_Conv2d \<lparr>q_in_channels = inp, q_out_channels = h, q_kernel_size = 1,
                  q_stride = 1, q_padding = 0, q_groups = None, q_bias = False,
                  q_is_qt = is_qt, q_lq = lq, q_fwlq = fwlq\<rparr> (W 0),
       BatchNorm2d h (W 1),
       ReLU6 True,
       LQ_Conv2d \<lparr>q_in_channels = h, q_out_channels = h, q_kernel_size = 3,
                  q_stride = s, q_padding = 1, q_groups = Some h, q_bias = False,
                  q_is_qt = is_qt, q_lq = lq, q_fwlq = fwlq\<rparr> (W 3),
       BatchNorm2d h (W 4),
       ReLU6 True,
       LQ_Conv2d \<lparr>q_in_channels = h, q_out_channels = oup, q_kernel_size = 1,
                  q_stride = 1, q_padding = 0, q_groups = None, q_bias = False,
                  q_is_qt = is_qt, q_lq = lq, q_fwlq = fwlq\<rparr> (W 6),
       BatchNorm2d oup (W 7)]"
  using assms
  by (auto simp add: InvertedResidual_init_def Let_def split: if_splits)

text \<open>
  C5. A block built with \<open>expand_ratio = 1\<close> has the module list [depthwise 3x3
  convolution, BN, ReLU6, pointwise projection, BN], with exactly 2 quantization-aware
  convolutions; any other block has [pointwise expansion, BN, ReLU6, depthwise 3x3
  convolution, BN, ReLU6, pointwise projection, BN], with exactly 3. The hidden width is
  \<open>round(in_channels * expand_ratio)\<close>, which for the integer ratios of the program is
  the product \<open>in_channels * expand_ratio\<close> itself (and \<open>in_channels\<close> when
  \<open>expand_ratio = 1\<close>), and the depthwise convolution has as many groups as channels.
\<close>

theorem InvertedResidual_init_layout:
  fixes s :: int
  assumes "InvertedResidual_init W inp oup s t is_qt lq fwlq = Inr b"
  shows "ir_conv b =
      (if t = 1 then
         [LQ_Conv2d \<lparr>q_in_channels = inp, q_out_channels = inp, q_kernel_size = 3,
                     q_stride = s, q_padding = 1, q_groups = Some inp, q_bias = False,
                     q_is_qt = is_qt, q_lq = lq, q_fwlq = fwlq\<rparr> (W 0),
          BatchNorm2d inp (W 1),
          ReLU6 True,
          LQ_Conv2d \<lparr>q_in_channels = inp, q_out_channels = oup, q_kernel_size = 1,
                     q_stride = 1, q_padding = 0, q_groups = None, q_bias = False,
                     q_is_qt = is_qt, q_lq = lq, q_fwlq = fwlq\<rparr> (W 3),
          BatchNorm2d oup (W 4)]
       else
         (let h = inp * t in
         [LQ_Conv2d \<lparr>q_in_channels = inp, q_out_channels = h, q_kernel_size = 1,
                     q_stride = 1, q_padding = 0, q_groups = None, q_bias = False,
                     q_is_qt = is_qt, q_lq = lq, q_fwlq = fwlq\<rparr> (W 0),
          BatchNorm2d h (W 1),
          ReLU6 True,
          LQ_Conv2d \<lparr>q_in_channels = h, q_out_channels = h, q_kernel_size = 3,
                     q_stride = s, q_padding = 1, q_groups = Some h, q_bias = False,
                     q_is_qt = is_qt, q_lq = lq, q_fwlq = fwlq\<rparr> (W 3),
          BatchNorm2d h (W 4),
          ReLU6 True,
          LQ_Conv2d \<lparr>q_in_channels = h, q_out_channels = oup, q_kernel_size = 1,
                     q_stride = 1, q_padding = 0, q_groups = None, q_bias = False,
                     q_is_qt = is_qt, q_lq = lq, q_fwlq = fwlq\<rparr> (W 6),
          BatchNorm2d oup (W 7)]))
    \<and> length (filter is_lq (ir_conv b)) = (if t = 1 then 2 else 3)
    \<and> length (ir_conv b) = (if t = 1 then 5 else 8)"
proof (cases "t = 1")
  case True
  with init_conv_plain [OF assms True] show ?thesis by simp
next
  case False
  with init_conv_expand [OF assms False refl] show ?thesis by (simp add: Let_def)
qed

text \<open>The blocks \<open>(16, 24, stride 2, t = 6)\<close> and \<open>(32, 16, stride 1, t = 1)\<close>.\<close>

theorem InvertedResidual_init_layout_witness:
  "\<exists>b b'. InvertedResidual_init (\<lambda>j. ()) 16 24 2 6 False False False = Inr b
     \<and> map (\<lambda>a. (q_in_channels a, q_out_channels a, q_kernel_size a, q_stride a, q_groups a))
          (lq_args_of (ir_conv b))
        = [(16, 96, 1, 1, None), (96, 96, 3, 2, Some 96), (96, 24, 1, 1, None)]
     \<and> length (filter is_lq (ir_conv b)) = 3
     \<and> InvertedResidual_init (\<lambda>j. ()) 32 16 1 1 False False False = Inr b'
     \<and> map (\<lambda>a. (q_in_channels a, q_out_channels a, q_kernel_size a, q_stride a, q_groups a))
          (lq_args_of (ir_conv b'))
        = [(32, 32, 3, 1, Some 32), (32, 16, 1, 1, None)]
     \<and> length (filter is_lq (ir_conv b')) = 2"
proof -
  obtain b where b: "InvertedResidual_init (\<lambda>j. ()) 16 24 2 6 False False False = Inr b"
    using init_value [of 2] by blast
  obtain b' where b': "InvertedResidual_init (\<lambda>j. ()) 32 16 1 1 False False False = Inr b'"
    using init_value [of 1] by blast
  from InvertedResidual_init_layout [OF b] InvertedResidual_init_layout [OF b'] b b'
  show ?thesis by (simp add: Let_def)
qed

lemma forward_plain:
  assumes "ir_expand_ratio b = 1"
    and "ir_conv b = [LQ_Conv2d a0 w0, BatchNorm2d n1 w1, ReLU6 r2, LQ_Conv2d a3 w3, BatchNorm2d n4 w4]"
  shows "InvertedResidual_forward rt b x =
     and_then (stage_pipeline rt (ir_conv b) x)
       (\<lambda>out. if ir_identity b then rt_add rt x out else Inr out)"
  using assms
  by (simp add: InvertedResidual_forward_def getitem_def slice_def and_then_def
       split: sum.splits prod.splits)

lemma forward_expand:
  assumes "ir_expand_ratio b \<noteq> 1"
    and "ir_conv b = [LQ_Conv2d a0 w0, BatchNorm2d n1 w1, ReLU6 r2, LQ_Conv2d a3 w3,
                      BatchNorm2d n4 w4, ReLU6 r5, LQ_Conv2d a6 w6, BatchNorm2d n7 w7]"
  shows "InvertedResidual_forward rt b x =
     and_then (stage_pipeline rt (butlast (ir_conv b)) x)
       (\<lambda>out. if ir_identity b then rt_add rt x out else Inr out)"
  using assms
  by (auto simp add: InvertedResidual_forward_def getitem_def slice_def and_then_def
       split: sum.splits prod.splits)

text \<open>
  C4, what the code does. The identity flag of a block equals
  \<open>stride == 1 and in_channels == out_channels\<close>, and a forward call returns \<open>x + out\<close>
  when the flag is set and \<open>out\<close> otherwise. For \<open>expand_ratio == 1\<close>, \<open>out\<close> is the
  result of the whole stage pipeline \<open>conv\<close> on \<open>x\<close>. For any other \<open>expand_ratio\<close> the
  forward call stops after \<open>conv[6]\<close>: \<open>out\<close> is the result of the pipeline without its
  last module, the batch normalization \<open>conv[7]\<close> that follows the projection, which is
  constructed and never applied.
\<close>

theorem InvertedResidual_forward_pipeline:
  fixes s :: int
  assumes "InvertedResidual_init W inp oup s t is_qt lq fwlq = Inr b"
  shows "ir_identity b = (s = 1 \<and> inp = oup)
    \<and> InvertedResidual_forward rt b x =
        (case stage_pipeline rt (if t = 1 then ir_conv b else butlast (ir_conv b)) x of
           Inl e \<Rightarrow> Inl e
         | Inr out \<Rightarrow> if ir_identity b then rt_add rt x out else Inr out)"
proof -
  have fwd: "InvertedResidual_forward rt b x =
     and_then (stage_pipeline rt (if t = 1 then ir_conv b else butlast (ir_conv b)) x)
       (\<lambda>out. if ir_identity b then rt_add rt x out else Inr out)"
  proof (cases "t = 1")
    case True
    then have "ir_expand_ratio b = 1" using init_identity(2) [OF assms] by simp
    then have "InvertedResidual_forward rt b x =
       and_then (stage_pipeline rt (ir_conv b) x)
         (\<lambda>out. if ir_identity b then rt_add rt x out else Inr out)"
      using init_conv_plain [OF assms True] by (rule forward_plain)
    with True show ?thesis by simp
  next
    case False
    then have "ir_expand_ratio b \<noteq> 1" using init_identity(2) [OF assms] by simp
    then have "InvertedResidual_forward rt b x =
       and_then (stage_pipeline rt (butlast (ir_conv b)) x)
         (\<lambda>out. if ir_identity b then rt_add rt x out else Inr out)"
      using init_conv_expand [OF assms False refl] by (rule forward_expand)
    with False show ?thesis by simp
  qed
  have "ir_identity b = (s = 1 \<and> inp = oup)" using assms by (rule init_identity(1))
  moreover have "InvertedResidual_forward rt b x =
        (case stage_pipeline rt (if t = 1 then ir_conv b else butlast (ir_conv b)) x of
           Inl e \<Rightarrow> Inl e
         | Inr out \<Rightarrow> if ir_identity b then rt_add rt x out else Inr out)"
    by (simp only: fwd and_then_def)
  ultimately show ?thesis by (rule conjI)
qed

text \<open>
  The block \<open>InvertedResidual(16, 16, 1, 6)\<close> on the runtime that records the calls: the
  whole pipeline ends with a batch normalization, the forward call adds the input to the
  result of the last convolution.
\<close>

theorem InvertedResidual_forward_pipeline_witness:
  "\<exists>b. InvertedResidual_init (\<lambda>j. ()) 16 16 1 6 False False False = Inr b
     \<and> ir_identity b
     \<and> stage_pipeline trace_runtime (ir_conv b) [''x'']
          = Inr [''x'', ''lq_conv2d'', ''batch_norm2d'', ''relu6'', ''lq_conv2d'',
                 ''batch_norm2d'', ''relu6'', ''lq_conv2d'', ''batch_norm2d'']
     \<and> InvertedResidual_forward trace_runtime b [''x'']
          = Inr [''x'', ''+'', ''x'', ''lq_conv2d'', ''batch_norm2d'', ''relu6'', ''lq_conv2d'',
                 ''batch_norm2d'', ''relu6'', ''lq_conv2d'']"
proof -
  obtain b where b: "InvertedResidual_init (\<lambda>j. ()) 16 16 1 6 False False False = Inr b"
    using init_value [of 1] by blast
  have c: "ir_conv b =
      [LQ_Conv2d \<lparr>q_in_channels = 16, q_out_channels = 96, q_kernel_size = 1,
                  q_stride = 1, q_padding = 0, q_groups = None, q_bias = False,
                  q_is_qt = False, q_lq = False, q_fwlq = False\<rparr> (),
       BatchNorm2d 96 (),
       ReLU6 True,
       LQ_Conv2d \<lparr>q_in_channels = 96, q_out_channels = 96, q_kernel_size = 3,
                  q_stride = 1, q_padding = 1, q_groups = Some 96, q_bias = False,
                  q_is_qt = False, q_lq = False, q_fwlq = False\<rparr> (),
       BatchNorm2d 96 (),
       ReLU6 True,
       LQ_Conv2d \<lparr>q_in_channels = 96, q_out_channels = 16, q_kernel_size = 1,
                  q_stride = 1, q_padding = 0, q_groups = None, q_bias = False,
                  q_is_qt = False, q_lq = False, q_fwlq = False\<rparr> (),
       BatchNorm2d 16 ()]"
    using init_conv_expand [OF b _ refl] by simp
  from InvertedResidual_forward_pipeline [OF b, of trace_runtime "[''x'']"]
  show ?thesis using b by (simp add: c and_then_def trace_runtime_def)
qed

subsection \<open>The network builder\<close>

lemma not_one_tenth: "real_of_int 1 \<noteq> fl64 (1 / 10)"
  by (simp add: fl64_one_tenth)

lemma divisor_8: "(if real_of_int width_mult = fl64 (1 / 10) then 4 else 8) = (8::int)"
  using not_one_tenth by (simp add: width_mult_def)

lemmas build_defs =
  MobileNetV2_init_def width_mult_def cfgs_def make_divisible_numeral fl64_one_tenth
  InvertedResidual_init_def upt_rec Let_def conv_3x3_bn_def conv_1x1_bn_def Linear_init_def

lemma built_from_length: "built_from P q l f k args bs \<Longrightarrow> length bs = length args"
  by (induction P q l f k args bs rule: built_from.induct) (auto split: list.splits)

lemma built_from_append:
  "built_from P q l f k as bs \<Longrightarrow> built_from P q l f (k + length as) as' bs'
     \<Longrightarrow> built_from P q l f k (as @ as') (bs @ bs')"
proof (induction as arbitrary: k bs)
  case Nil
  then show ?case by simp
next
  case (Cons a as)
  obtain inp oup s t where a: "a = (inp, oup, s, t)" by (cases a)
  from Cons.prems(1) obtain b bs0 where bs: "bs = b # bs0"
    by (cases bs) (auto simp add: a)
  from Cons.prems(1) have h: "InvertedResidual_init (p_features P k) inp oup s t q l f = Inr b"
    and t: "built_from P q l f (Suc k) as bs0"
    by (simp_all add: a bs)
  from Cons.prems(2) have "built_from P q l f (Suc k + length as) as' bs'" by simp
  with t have "built_from P q l f (Suc k) (as @ as') (bs0 @ bs')" by (rule Cons.IH)
  with h show ?case by (simp add: a bs)
qed

lemma blocks_loop_built:
  "blocks_loop P q l f t oc s is (layers, ic) = Inr (layers', ic') \<Longrightarrow>
     \<exists>bs. layers' = layers @ map Block bs
        \<and> built_from P q l f (length layers) (loop_args ic oc s t is) bs
        \<and> ic' = (if is = [] then ic else oc)"
proof (induction "is" arbitrary: layers ic)
  case Nil
  then show ?case by simp
next
  case (Cons i rest)
  from Cons.prems obtain b where
    b: "InvertedResidual_init (p_features P (length layers)) ic oc (if i = 0 then s else 1) t q l f = Inr b"
    and r: "blocks_loop P q l f t oc s rest (layers @ [Block b], oc) = Inr (layers', ic')"
    by (auto split: sum.splits)
  from Cons.IH [OF r] obtain bs where
    l: "layers' = (layers @ [Block b]) @ map Block bs"
    and bf: "built_from P q l f (length (layers @ [Block b])) (loop_args oc oc s t rest) bs"
    by blast
  have "layers' = layers @ map Block (b # bs)" using l by simp
  moreover have "built_from P q l f (length layers) (loop_args ic oc s t (i # rest)) (b # bs)"
    using b bf by simp
  moreover have "ic' = oc"
    using Cons.IH [OF r] by (auto split: if_splits)
  ultimately show ?case by (intro exI [of _ "b # bs"]) simp
qed

lemma loop_args_nonzero:
  "\<forall>i \<in> set is. i \<noteq> 0 \<Longrightarrow> loop_args oc oc s t is = replicate (length is) (oc, oc, 1, t)"
  by (induction "is") auto

lemma loop_args_range:
  assumes "0 < n"
  shows "loop_args ic oc s t [0 ..< n] = (ic, oc, s, t) # replicate (n - 1) (oc, oc, 1, t)"
proof -
  from assms have "[0 ..< n] = 0 # [1 ..< n]" by (simp add: upt_conv_Cons)
  moreover have "loop_args oc oc s t [1 ..< n] = replicate (length [1 ..< n]) (oc, oc, 1, t)"
    by (rule loop_args_nonzero) simp
  ultimately show ?thesis by simp
qed

lemma cfgs_loop_built:
  "cfgs_loop P q l f rows (layers, ic) = Inr (layers', ic') \<Longrightarrow>
     \<exists>bs. layers' = layers @ map Block bs
        \<and> built_from P q l f (length layers) (spec_block_args ic rows) bs
        \<and> ic' = spec_running ic rows"
proof (induction rows arbitrary: layers ic)
  case Nil
  then show ?case by simp
next
  case (Cons row rows)
  obtain t c n s where row: "row = (t, c, n, s)" by (cases row)
  define oc where "oc = make_divisible (real_of_int (c * width_mult))
      (if real_of_int width_mult = fl64 (1 / 10) then 4 else 8) None"
  from Cons.prems obtain mid icm where
    m: "blocks_loop P q l f t oc s [0 ..< nat n] (layers, ic) = Inr (mid, icm)"
    and r: "cfgs_loop P q l f rows (mid, icm) = Inr (layers', ic')"
    by (auto simp add: row oc_def Let_def split: sum.splits)
  from blocks_loop_built [OF m] obtain bs1 where
    m1: "mid = layers @ map Block bs1"
    and b1: "built_from P q l f (length layers) (loop_args ic oc s t [0 ..< nat n]) bs1"
    and i1: "icm = (if [0 ..< nat n] = [] then ic else oc)"
    by blast
  from Cons.IH [OF r] obtain bs2 where
    m2: "layers' = mid @ map Block bs2"
    and b2: "built_from P q l f (length mid) (spec_block_args icm rows) bs2"
    and i2: "ic' = spec_running icm rows"
    by blast
  have len1: "length bs1 = length (loop_args ic oc s t [0 ..< nat n])"
    using b1 by (rule built_from_length)
  show ?case
  proof (cases "0 < n")
    case True
    then have la: "loop_args ic oc s t [0 ..< nat n] =
        (ic, oc, s, t) # replicate (nat n - 1) (oc, oc, 1, t)"
      by (simp add: loop_args_range)
    from True have icm: "icm = oc" using i1 by simp
    have "built_from P q l f (length layers)
        (((ic, oc, s, t) # replicate (nat n - 1) (oc, oc, 1, t))
           @ spec_block_args oc rows) (bs1 @ bs2)"
      using b1 [unfolded la] b2 len1
      by (intro built_from_append) (simp_all add: m1 icm la)
    then have "built_from P q l f (length layers) (spec_block_args ic (row # rows)) (bs1 @ bs2)"
      using True by (simp add: row oc_def Let_def)
    moreover have "layers' = layers @ map Block (bs1 @ bs2)" by (simp add: m1 m2)
    moreover have "ic' = spec_running ic (row # rows)"
      using True i2 icm by (simp add: row oc_def Let_def)
    ultimately show ?thesis by blast
  next
    case False
    then have e: "[0 ..< nat n] = []" by simp
    with b1 have "bs1 = []" by simp
    moreover from e i1 have "icm = ic" by simp
    ultimately show ?thesis using False m1 m2 b2 i2
      by (intro exI [of _ bs2]) (simp add: row Let_def)
  qed
qed

lemma blocks_loop_succeeds:
  fixes s :: int
  assumes "s = 1 \<or> s = 2"
  shows "\<exists>st'. blocks_loop P q l f t oc s is st = Inr st'"
proof (induction "is" arbitrary: st)
  case Nil
  show ?case by simp
next
  case (Cons i rest)
  obtain layers ic where st: "st = (layers, ic)" by (cases st)
  have "(if i = 0 then s else 1) = 1 \<or> (if i = 0 then s else 1) = 2" using assms by simp
  then obtain b where
    "InvertedResidual_init (p_features P (length layers)) ic oc (if i = 0 then s else 1) t q l f = Inr b"
    using init_value by blast
  then show ?case using Cons.IH by (simp add: st)
qed

lemma cfgs_loop_succeeds:
  assumes "list_all (\<lambda>(t, c, n, s). s = 1 \<or> s = 2) rows"
  shows "\<exists>st'. cfgs_loop P q l f rows st = Inr st'"
  using assms
proof (induction rows arbitrary: st)
  case Nil
  show ?case by simp
next
  case (Cons row rows)
  obtain t c n s where row: "row = (t, c, n, s)" by (cases row)
  from Cons.prems have s: "s = 1 \<or> s = 2" and rest: "list_all (\<lambda>(t, c, n, s). s = 1 \<or> s = 2) rows"
    by (simp_all add: row)
  define oc where "oc = make_divisible (real_of_int (c * width_mult))
      (if real_of_int width_mult = fl64 (1 / 10) then 4 else 8) None"
  from blocks_loop_succeeds [OF s] obtain st1 where
    "blocks_loop P q l f t oc s [0 ..< nat n] st = Inr st1" by blast
  moreover from Cons.IH [OF rest] obtain st2 where
    "cfgs_loop P q l f rows st1 = Inr st2" by blast
  ultimately show ?case by (simp add: row oc_def Let_def)
qed

lemma cfgs_strides: "list_all (\<lambda>(t, c, n, s). s = 1 \<or> s = 2) cfgs"
  by (simp add: cfgs_def)

lemma first_channel: "make_divisible (real_of_int (32 * width_mult)) 8 None = 32"
  by (simp add: width_mult_def make_divisible_numeral)

lemma last_running: "spec_running 32 cfgs = 320"
  by (simp add: cfgs_def width_mult_def make_divisible_numeral fl64_one_tenth Let_def)

text \<open>
  The constructor fails for a negative \<open>num_classes\<close> only; otherwise it returns the stem,
  the blocks of the table, the head from 320 to 1280 channels and the classifier.
\<close>

lemma MobileNetV2_init_net:
  "\<exists>bs. built_from P is_qt lq fwlq 1 (spec_block_args 32 cfgs) bs
     \<and> MobileNetV2_init P num_classes is_qt lq fwlq index =
         (if num_classes < 0 then Inl RuntimeError
          else Inr \<lparr>net_cfgs = cfgs,
                    net_features =
                      Sequential (conv_3x3_bn (p_features P 0) 3 32 2 is_qt lq fwlq) # map Block bs,
                    net_conv = conv_1x1_bn (p_conv P) 320 1280 lq is_qt fwlq,
                    net_avgpool = (1, 1),
                    net_classifier = Linear 1280 num_classes (p_classifier P)\<rparr>)"
proof -
  let ?stem = "Sequential (conv_3x3_bn (p_features P 0) 3 32 2 is_qt lq fwlq)"
  obtain st where "cfgs_loop P is_qt lq fwlq cfgs ([?stem], 32) = Inr st"
    using cfgs_loop_succeeds [OF cfgs_strides] by blast
  then obtain layers' running' where
    r: "cfgs_loop P is_qt lq fwlq cfgs ([?stem], 32) = Inr (layers', running')"
    by (cases st) simp
  from cfgs_loop_built [OF r] obtain bs where
    l: "layers' = [?stem] @ map Block bs"
    and b: "built_from P is_qt lq fwlq (length [?stem]) (spec_block_args 32 cfgs) bs"
    and c: "running' = spec_running 32 cfgs"
    by blast
  have w: "\<not> 1 < real_of_int width_mult" by (simp add: width_mult_def)
  have "MobileNetV2_init P num_classes is_qt lq fwlq index =
         (if num_classes < 0 then Inl RuntimeError
          else Inr \<lparr>net_cfgs = cfgs,
                    net_features = ?stem # map Block bs,
                    net_conv = conv_1x1_bn (p_conv P) 320 1280 lq is_qt fwlq,
                    net_avgpool = (1, 1),
                    net_classifier = Linear 1280 num_classes (p_classifier P)\<rparr>)"
    unfolding MobileNetV2_init_def Let_def first_channel divisor_8
    using r l c w by (simp add: last_running Linear_init_def)
  moreover have "built_from P is_qt lq fwlq 1 (spec_block_args 32 cfgs) bs"
    using b by simp
  ultimately show ?thesis by blast
qed

text \<open>
  C6. For every stage configuration table and every state of the builder before the
  loop: if the loop ends without an exception, it has appended to \<open>layers\<close> exactly the
  blocks that the row-by-row rule prescribes (per row \<open>n\<close> blocks, the first with the
  row's stride and the running channel count as input, the others with stride 1 and the
  rounded output channel count as input), each block being the result of the constructor
  call with these arguments, and the running channel count ends as the rule says (the
  rounded output channel count of the last row with a block).
\<close>

theorem cfgs_loop_blocks:
  assumes "cfgs_loop P is_qt lq fwlq rows (layers, running) = Inr (layers', running')"
  shows "\<exists>bs. layers' = layers @ map Block bs
       \<and> length bs = length (spec_block_args running rows)
       \<and> built_from P is_qt lq fwlq (length layers) (spec_block_args running rows) bs
       \<and> running' = spec_running running rows"
proof -
  from cfgs_loop_built [OF assms] obtain bs where
    a: "layers' = layers @ map Block bs"
    and b: "built_from P is_qt lq fwlq (length layers) (spec_block_args running rows) bs"
    and c: "running' = spec_running running rows"
    by blast
  from b have "length bs = length (spec_block_args running rows)"
    by (rule built_from_length)
  with a b c show ?thesis by blast
qed

text \<open>
  The network of the source: after the stem with 32 channels the loop runs over the table
  \<open>cfgs\<close> and appends 17 blocks, with the constructor arguments listed.
\<close>

theorem cfgs_loop_blocks_witness:
  "\<exists>net bs.
     MobileNetV2_init unit_params 1000 False False False () = Inr net
     \<and> net_features net =
         Sequential (conv_3x3_bn (p_features unit_params 0) 3 32 2 False False False)
           # map Block bs
     \<and> length bs = 17
     \<and> spec_block_args 32 cfgs =
         [(32, 16, 1, 1),
          (16, 24, 2, 6), (24, 24, 1, 6),
          (24, 32, 2, 6), (32, 32, 1, 6), (32, 32, 1, 6),
          (32, 64, 2, 6), (64, 64, 1, 6), (64, 64, 1, 6), (64, 64, 1, 6),
          (64, 96, 1, 6), (96, 96, 1, 6), (96, 96, 1, 6),
          (96, 160, 2, 6), (160, 160, 1, 6), (160, 160, 1, 6),
          (160, 320, 1, 6)]
     \<and> built_from unit_params False False False 1 (spec_block_args 32 cfgs) bs"
proof -
  let ?stem = "Sequential (conv_3x3_bn (p_features unit_params 0) 3 32 2 False False False)"
  obtain st where "cfgs_loop unit_params False False False cfgs ([?stem], 32) = Inr st"
    using cfgs_loop_succeeds [OF cfgs_strides] by blast
  then obtain layers' running' where
    r: "cfgs_loop unit_params False False False cfgs ([?stem], 32) = Inr (layers', running')"
    by (cases st) simp
  have "\<exists>net. MobileNetV2_init unit_params 1000 False False False () = Inr net
      \<and> net_features net = layers'"
    unfolding MobileNetV2_init_def Let_def first_channel divisor_8 using r
    by (simp add: Linear_init_def width_mult_def)
  then obtain net where
    n: "MobileNetV2_init unit_params 1000 False False False () = Inr net"
    and nf: "net_features net = layers'"
    by blast
  have args: "spec_block_args 32 cfgs =
         [(32, 16, 1, 1),
          (16, 24, 2, 6), (24, 24, 1, 6),
          (24, 32, 2, 6), (32, 32, 1, 6), (32, 32, 1, 6),
          (32, 64, 2, 6), (64, 64, 1, 6), (64, 64, 1, 6), (64, 64, 1, 6),
          (64, 96, 1, 6), (96, 96, 1, 6), (96, 96, 1, 6),
          (96, 160, 2, 6), (160, 160, 1, 6), (160, 160, 1, 6),
          (160, 320, 1, 6)]"
    by (simp add: cfgs_def width_mult_def make_divisible_numeral fl64_one_tenth Let_def
        numeral_2_eq_2 numeral_3_eq_3)
  from cfgs_loop_blocks [OF r] obtain bs where
    "layers' = [?stem] @ map Block bs"
    "length bs = length (spec_block_args 32 cfgs)"
    "built_from unit_params False False False (length [?stem]) (spec_block_args 32 cfgs) bs"
    by blast
  then show ?thesis using n nf args by auto
qed

text \<open>
  C7. \<open>conv_3x3_bn\<close> returns a plain \<open>nn.Conv2d\<close> (3x3, padding 1, no bias) followed by
  batch normalization and ReLU6, whatever the three flags; the first member of
  \<open>features\<close> of every constructed network is this stage from 3 to 32 channels with
  stride 2, and contains no quantization-aware convolution. (A network is constructed
  when \<open>num_classes\<close> is not negative.)
\<close>

theorem stem_is_plain:
  assumes "0 \<le> num_classes"
  shows "conv_3x3_bn W inp oup s is_qt lq fwlq =
     [Conv2d \<lparr>c_in_channels = inp, c_out_channels = oup, c_kernel_size = 3,
              c_stride = s, c_padding = 1, c_bias = False\<rparr> (W 0),
      BatchNorm2d oup (W 1),
      ReLU6 True]
   \<and> (\<exists>net. MobileNetV2_init P num_classes is_qt lq fwlq index = Inr net
         \<and> net_features net ! 0 =
             Sequential
               [Conv2d \<lparr>c_in_channels = 3, c_out_channels = 32, c_kernel_size = 3,
                        c_stride = 2, c_padding = 1, c_bias = False\<rparr> (p_features P 0 0),
                BatchNorm2d 32 (p_features P 0 1),
                ReLU6 True]
         \<and> feature_lq_args (net_features net ! 0) = [])"
  using assms MobileNetV2_init_net [of P is_qt lq fwlq num_classes index]
  by (auto simp add: conv_3x3_bn_def)

text \<open>The network with 10 classes, \<open>is_qt\<close> and \<open>fwlq\<close> set.\<close>

theorem stem_is_plain_witness:
  "(0::int) \<le> 10
   \<and> (\<exists>net. MobileNetV2_init unit_params 10 True False True () = Inr net
         \<and> net_features net ! 0 =
             Sequential
               [Conv2d \<lparr>c_in_channels = 3, c_out_channels = 32, c_kernel_size = 3,
                        c_stride = 2, c_padding = 1, c_bias = False\<rparr> (),
                BatchNorm2d 32 (),
                ReLU6 True]
         \<and> feature_lq_args (net_features net ! 0) = [])"
  using stem_is_plain [of 10 "\<lambda>j. ()" 3 32 2 True False True unit_params "()"]
  by (simp add: unit_params_def)

text \<open>
  C8. The head of every constructed network is a 1x1 quantization-aware convolution
  (stride 1, padding 0) from 320 channels, followed by batch normalization and ReLU6. Its
  output channel count is the value that the claim's rule gives at the width multiplier of
  the source, \<open>width_mult = 1\<close>: the divisible-rounded value of \<open>1280 * 1\<close>, which is
  1280.
\<close>

theorem head_projection:
  assumes "MobileNetV2_init P num_classes is_qt lq fwlq index = Inr net"
  shows "net_conv net =
           [LQ_Conv2d \<lparr>q_in_channels = 320, q_out_channels = spec_last_channel width_mult,
                       q_kernel_size = 1, q_stride = 1, q_padding = 0, q_groups = None,
                       q_bias = False, q_is_qt = is_qt, q_lq = lq, q_fwlq = fwlq\<rparr> (p_conv P 0),
            BatchNorm2d (spec_last_channel width_mult) (p_conv P 1),
            ReLU6 True]
       \<and> spec_last_channel width_mult = 1280"
proof -
  have s: "spec_last_channel width_mult = 1280"
    by (simp add: spec_last_channel_def width_mult_def make_divisible_numeral fl64_one_tenth)
  from MobileNetV2_init_net [of P is_qt lq fwlq num_classes index] assms
  have "net_conv net = conv_1x1_bn (p_conv P) 320 1280 lq is_qt fwlq"
    by (auto split: if_splits)
  then show ?thesis by (simp add: s conv_1x1_bn_def)
qed

text \<open>The network with 1000 classes and the three flags off.\<close>

theorem head_projection_witness:
  "\<exists>net. MobileNetV2_init unit_params 1000 False False False () = Inr net
     \<and> map (\<lambda>a. (q_in_channels a, q_out_channels a, q_kernel_size a, q_stride a, q_padding a))
          (lq_args_of (net_conv net)) = [(320, 1280, 1, 1, 0)]
     \<and> spec_last_channel width_mult = 1280"
proof -
  obtain net where n: "MobileNetV2_init unit_params 1000 False False False () = Inr net"
    using MobileNetV2_init_net [of unit_params False False False 1000 "()"] by auto
  from head_projection [OF n] n show ?thesis by simp
qed

subsection \<open>The forward pass of the network\<close>

text \<open>
  C3. Whenever the forward call of a network returns, it returns a pair whose second
  component is the value of \<open>torch.Tensor([0]).cuda()\<close>, for every network (so for every
  flag configuration), every runtime and every input: the auxiliary results of the
  quantization-aware convolutions are dropped by the blocks and by the network.
\<close>

theorem MobileNetV2_forward_aux_zero:
  assumes "MobileNetV2_forward rt net x = Inr (logits, aux)"
  shows "rt_zero_cuda rt = Inr aux"
  using assms
  by (auto simp add: MobileNetV2_forward_def and_then_def split: sum.splits prod.splits)

text \<open>
  On shapes, for the network with \<open>is_qt\<close> and \<open>fwlq\<close> set and 10 classes: the call returns,
  and the second component is the shape \<open>[1]\<close> of \<open>torch.Tensor([0])\<close>.
\<close>

theorem MobileNetV2_forward_aux_zero_witness:
  "\<exists>net logits aux.
     MobileNetV2_init unit_params 10 True False True () = Inr net
     \<and> MobileNetV2_forward shape_runtime net [4, 3, 32, 32] = Inr (logits, aux)
     \<and> logits = [4, 10]
     \<and> rt_zero_cuda (shape_runtime :: (unit, int list) runtime) = Inr aux
     \<and> aux = [1]"
proof -
  have "\<exists>net. MobileNetV2_init unit_params 10 True False True () = Inr net
     \<and> MobileNetV2_forward shape_runtime net [4, 3, 32, 32] = Inr ([4, 10], [1])"
    by (simp add: build_defs MobileNetV2_forward_def InvertedResidual_forward_def getitem_def
        slice_def and_then_def shape_runtime_def conv_shape_def)
  then obtain net where
    n: "MobileNetV2_init unit_params 10 True False True () = Inr net"
    and f: "MobileNetV2_forward shape_runtime net [4, 3, 32, 32] = Inr ([4, 10], [1])"
    by blast
  from MobileNetV2_forward_aux_zero [OF f] n f show ?thesis by blast
qed

text \<open>
  C9. On shapes, the network constructed with 1000 classes and all three flags off maps
  an input of shape \<open>[1, 3, 224, 224]\<close> to logits of shape \<open>[1, 1000]\<close>.
\<close>

theorem MobileNetV2_forward_shape:
  "\<exists>net aux. MobileNetV2_init P 1000 False False False index = Inr net
     \<and> MobileNetV2_forward shape_runtime net [1, 3, 224, 224] = Inr ([1, 1000], aux)"
  by (simp add: build_defs MobileNetV2_forward_def InvertedResidual_forward_def getitem_def
      slice_def and_then_def shape_runtime_def conv_shape_def)

text \<open>
  C10. The argument \<open>index\<close> of the constructor, which \<open>mobilenetv2_cifar\<close> passes on, has
  no effect: two calls that differ only in \<open>index\<close> (with the same parameter values)
  return the same network or the same exception, and so the same forward results.
\<close>

theorem index_has_no_effect:
  "MobileNetV2_init P num_classes is_qt lq fwlq index
     = MobileNetV2_init P num_classes is_qt lq fwlq index'
   \<and> mobilenetv2_cifar P num_classes is_qt lq index fwlq
     = MobileNetV2_init P num_classes is_qt lq fwlq index
   \<and> mobilenetv2_cifar P num_classes is_qt lq index fwlq
     = mobilenetv2_cifar P num_classes is_qt lq index' fwlq
   \<and> and_then (MobileNetV2_init P num_classes is_qt lq fwlq index)
        (\<lambda>net. MobileNetV2_forward rt net x)
     = and_then (MobileNetV2_init P num_classes is_qt lq fwlq index')
        (\<lambda>net. MobileNetV2_forward rt net x)"
proof -
  have "MobileNetV2_init P num_classes is_qt lq fwlq index
     = MobileNetV2_init P num_classes is_qt lq fwlq index'"
    by (simp only: MobileNetV2_init_def)
  then show ?thesis by (simp add: mobilenetv2_cifar_def)
qed

end
